theory Spec2Isabelle
  imports Main "HOL-Library.Word"
begin

section \<open>Strings\<close>

text \<open>
  A JavaScript string is a sequence of UTF-16 code units. String literals of the source
  that are only ever written out (console messages, header names, JSON field names) stay
  HOL strings; text that the user or the server supplies is a \<open>js_string\<close>.
\<close>

type_synonym js_string = "16 word list"

definition js :: "string \<Rightarrow> js_string" where
  "js s = map (\<lambda>c. of_nat (of_char c)) s"

text \<open>
  \<open>String.prototype.trim\<close> strips the code units of ECMAScript's WhiteSpace and
  LineTerminator productions from both ends: TAB, LF, VT, FF, CR, SPACE, NBSP, the
  Unicode space separators (U+1680, U+2000 to U+200A, U+202F, U+205F, U+3000), the line and
  paragraph separators U+2028 and U+2029, and the byte order mark U+FEFF.
\<close>

definition is_white_space :: "16 word \<Rightarrow> bool" where
  "is_white_space c \<longleftrightarrow>
     c = 0x9 \<or> c = 0xA \<or> c = 0xB \<or> c = 0xC \<or> c = 0xD \<or> c = 0x20 \<or> c = 0xA0 \<or>
     c = 0x1680 \<or> (0x2000 \<le> c \<and> c \<le> 0x200A) \<or> c = 0x2028 \<or> c = 0x2029 \<or>
     c = 0x202F \<or> c = 0x205F \<or> c = 0x3000 \<or> c = 0xFEFF"

definition trim :: "js_string \<Rightarrow> js_string" where
  "trim s = rev (dropWhile is_white_space (rev (dropWhile is_white_space s)))"

section \<open>Todos, requests and responses\<close>

text \<open>
  The todo JSON shape of the API: \<open>{id: string|int, title: string, completed: boolean}\<close>.
  The component reads \<open>todo.id\<close>, \<open>todo.title\<close> and \<open>todo.completed\<close>.
\<close>

datatype ident = IdNum int | IdStr js_string

record todo =
  ident :: ident
  title :: js_string
  completed :: bool

datatype http_method = GET | POST | PUT | DELETE

text \<open>The two resources the component addresses: \<open>/api/todos\<close> and \<open>/api/todos/${id}\<close>.\<close>

datatype url = ApiTodos | ApiTodo ident

datatype json_value = JString js_string | JBool bool

text \<open>
  The argument of \<open>fetch\<close>. A call with the URL alone is a GET with no headers and no
  body. The body is the object handed to \<open>JSON.stringify\<close>, as its fields in order.
\<close>

record request =
  req_method :: http_method
  req_url :: url
  req_headers :: "(string \<times> string) list"
  req_body :: "(string \<times> json_value) list option"

definition json_headers :: "(string \<times> string) list" where
  "json_headers = [(''Content-Type'', ''application/json'')]"

text \<open>
  What the awaited promises give. \<open>fetch\<close> rejects on a network failure and resolves with a
  response of any HTTP status otherwise; \<open>response.json()\<close> rejects when the body is not
  JSON (\<open>parsed = None\<close>) and resolves with the parsed body otherwise.
\<close>

datatype error = NetworkError | JsonError

datatype 'a response = Response (status: nat) (parsed: "'a option")

datatype 'a fetched = Rejected | Resolved "'a response"

text \<open>\<open>await fetch(...)\<close> followed by \<open>await response.json()\<close> inside a \<open>try\<close> block.\<close>

fun await_json :: "'a fetched \<Rightarrow> error + 'a" where
  "await_json Rejected = Inl NetworkError"
| "await_json (Resolved r) = (case parsed r of None \<Rightarrow> Inl JsonError | Some d \<Rightarrow> Inr d)"

text \<open>\<open>await fetch(...)\<close> alone, as in \<open>deleteTodo\<close>: the response is not read.\<close>

fun await_fetch :: "'a fetched \<Rightarrow> error + 'a response" where
  "await_fetch Rejected = Inl NetworkError"
| "await_fetch (Resolved r) = Inr r"

text \<open>What a handler does besides setting state.\<close>

datatype effect = PreventDefault | Fetch request | ConsoleError string error

section \<open>The component \<open>App\<close> of \<open>frontend/src/App.jsx\<close>\<close>

record app_state =
  todos :: "todo list"
  newTodo :: js_string
  loading :: bool

text \<open>The three \<open>useState\<close> initial values.\<close>

definition initial_state :: app_state where
  "initial_state = \<lparr>todos = [], newTodo = [], loading = False\<rparr>"

text \<open>
  An async handler runs up to its first \<open>await\<close> when the event fires, and the rest when the
  promise settles. What runs later is a closure: it reads the \<open>todos\<close> of the render in
  which the handler was created, not the state at the time the promise settles. A
  continuation records the handler and the values it closed over.
\<close>

datatype continuation =
    FetchTodosK
  | AddTodoK "todo list"
  | ToggleTodoK "todo list" ident
  | DeleteTodoK "todo list" ident

type_synonym started = "app_state \<times> effect list \<times> continuation option"
type_synonym settled = "app_state \<times> effect list"

definition fetchTodos_start :: "app_state \<Rightarrow> started" where
  "fetchTodos_start s =
     (s, [Fetch \<lparr>req_method = GET, req_url = ApiTodos, req_headers = [], req_body = None\<rparr>],
      Some FetchTodosK)"

definition fetchTodos_settle :: "todo list fetched \<Rightarrow> app_state \<Rightarrow> settled" where
  "fetchTodos_settle out s =
     (case await_json out of
        Inr data \<Rightarrow> (s\<lparr>todos := data\<rparr>, [])
      | Inl e \<Rightarrow> (s, [ConsoleError ''Error fetching todos:'' e]))"

definition addTodo_start :: "app_state \<Rightarrow> started" where
  "addTodo_start s =
     (if trim (newTodo s) = [] then (s, [PreventDefault], None)
      else (s\<lparr>loading := True\<rparr>,
            [PreventDefault,
             Fetch \<lparr>req_method = POST, req_url = ApiTodos, req_headers = json_headers,
                    req_body = Some [(''title'', JString (newTodo s)),
                                     (''completed'', JBool False)]\<rparr>],
            Some (AddTodoK (todos s))))"

definition addTodo_settle :: "todo list \<Rightarrow> todo fetched \<Rightarrow> app_state \<Rightarrow> settled" where
  "addTodo_settle captured out s =
     (case await_json out of
        Inr data \<Rightarrow> (s\<lparr>todos := captured @ [data], newTodo := [], loading := False\<rparr>, [])
      | Inl e \<Rightarrow> (s\<lparr>loading := False\<rparr>, [ConsoleError ''Error adding todo:'' e]))"

definition toggleTodo_start :: "ident \<Rightarrow> bool \<Rightarrow> app_state \<Rightarrow> started" where
  "toggleTodo_start i c s =
     (s,
      [Fetch \<lparr>req_method = PUT, req_url = ApiTodo i, req_headers = json_headers,
              req_body = Some [(''completed'', JBool (\<not> c))]\<rparr>],
      Some (ToggleTodoK (todos s) i))"

definition toggleTodo_settle ::
  "todo list \<Rightarrow> ident \<Rightarrow> todo fetched \<Rightarrow> app_state \<Rightarrow> settled" where
  "toggleTodo_settle captured i out s =
     (case await_json out of
        Inr updatedTodo \<Rightarrow>
          (s\<lparr>todos := map (\<lambda>t. if ident t = i then updatedTodo else t) captured\<rparr>, [])
      | Inl e \<Rightarrow> (s, [ConsoleError ''Error updating todo:'' e]))"

definition deleteTodo_start :: "ident \<Rightarrow> app_state \<Rightarrow> started" where
  "deleteTodo_start i s =
     (s,
      [Fetch \<lparr>req_method = DELETE, req_url = ApiTodo i, req_headers = [], req_body = None\<rparr>],
      Some (DeleteTodoK (todos s) i))"

definition deleteTodo_settle ::
  "todo list \<Rightarrow> ident \<Rightarrow> unit fetched \<Rightarrow> app_state \<Rightarrow> settled" where
  "deleteTodo_settle captured i out s =
     (case await_fetch out of
        Inr r \<Rightarrow> (s\<lparr>todos := filter (\<lambda>t. ident t \<noteq> i) captured\<rparr>, [])
      | Inl e \<Rightarrow> (s, [ConsoleError ''Error deleting todo:'' e]))"

text \<open>
  What \<open>App\<close> returns: the form (text input and submit button, both disabled while
  \<open>loading\<close>) and either the empty-state paragraph or one item per todo. Nothing in it
  depends on anything but the three state variables.
\<close>

record todo_item =
  item_key :: ident
  checkbox_checked :: bool
  span_class :: string
  span_text :: js_string

datatype todo_list_view = EmptyState string | TodoItems "todo_item list"

record view =
  input_value :: js_string
  input_disabled :: bool
  button_disabled :: bool
  button_text :: string
  todo_list :: todo_list_view

definition render_item :: "todo \<Rightarrow> todo_item" where
  "render_item t =
     \<lparr>item_key = ident t, checkbox_checked = completed t,
      span_class = (if completed t then ''completed'' else []), span_text = title t\<rparr>"

definition render :: "app_state \<Rightarrow> view" where
  "render s =
     \<lparr>input_value = newTodo s, input_disabled = loading s, button_disabled = loading s,
      button_text = (if loading s then ''Adding...'' else ''Add''),
      todo_list = (if length (todos s) = 0 then EmptyState ''No todos yet. Add one above!''
                   else TodoItems (map render_item (todos s)))\<rparr>"

subsection \<open>The component over time\<close>

text \<open>
  The mounted component with its requests in flight and everything it has done so far.
  An event is a user action on the rendered view or the settling of a request in flight.
  The browser delivers no change and no submit event from a disabled control; a checkbox
  or delete button exists for each rendered item, whose handler is called with that
  item's \<open>todo.id\<close> (and \<open>todo.completed\<close>).
\<close>

record system =
  app :: app_state
  inflight :: "continuation list"
  trace :: "effect list"

datatype event =
    Change js_string
  | Submit
  | ToggleClicked nat
  | DeleteClicked nat
  | FetchTodosSettled "todo list fetched"
  | AddTodoSettled "todo list" "todo fetched"
  | ToggleTodoSettled "todo list" ident "todo fetched"
  | DeleteTodoSettled "todo list" ident "unit fetched"

fun after_start :: "system \<Rightarrow> started \<Rightarrow> system" where
  "after_start sys (s, fx, k) =
     \<lparr>app = s,
      inflight = inflight sys @ (case k of None \<Rightarrow> [] | Some c \<Rightarrow> [c]),
      trace = trace sys @ fx\<rparr>"

fun after_settle :: "system \<Rightarrow> continuation \<Rightarrow> settled \<Rightarrow> system option" where
  "after_settle sys k (s, fx) =
     (if k \<in> set (inflight sys)
      then Some \<lparr>app = s, inflight = remove1 k (inflight sys), trace = trace sys @ fx\<rparr>
      else None)"

fun step :: "event \<Rightarrow> system \<Rightarrow> system option" where
  "step (Change v) sys =
     (if input_disabled (render (app sys)) then None
      else Some (sys\<lparr>app := (app sys)\<lparr>newTodo := v\<rparr>\<rparr>))"
| "step Submit sys =
     (if button_disabled (render (app sys)) then None
      else Some (after_start sys (addTodo_start (app sys))))"
| "step (ToggleClicked k) sys =
     (if k < length (todos (app sys))
      then Some (after_start sys
             (toggleTodo_start (ident (todos (app sys) ! k)) (completed (todos (app sys) ! k))
                (app sys)))
      else None)"
| "step (DeleteClicked k) sys =
     (if k < length (todos (app sys))
      then Some (after_start sys (deleteTodo_start (ident (todos (app sys) ! k)) (app sys)))
      else None)"
| "step (FetchTodosSettled out) sys =
     after_settle sys FetchTodosK (fetchTodos_settle out (app sys))"
| "step (AddTodoSettled captured out) sys =
     after_settle sys (AddTodoK captured) (addTodo_settle captured out (app sys))"
| "step (ToggleTodoSettled captured i out) sys =
     after_settle sys (ToggleTodoK captured i) (toggleTodo_settle captured i out (app sys))"
| "step (DeleteTodoSettled captured i out) sys =
     after_settle sys (DeleteTodoK captured i) (deleteTodo_settle captured i out (app sys))"

fun run :: "event list \<Rightarrow> system \<Rightarrow> system option" where
  "run [] sys = Some sys"
| "run (e # es) sys = (case step e sys of None \<Rightarrow> None | Some sys' \<Rightarrow> run es sys')"

text \<open>
  Mounting: the first render with the initial state, then the effect with the empty
  dependency list, which calls \<open>fetchTodos\<close> and is never run again.
\<close>

definition mount :: system where
  "mount = after_start \<lparr>app = initial_state, inflight = [], trace = []\<rparr>
             (fetchTodos_start initial_state)"

fun is_AddTodoK :: "continuation \<Rightarrow> bool" where
  "is_AddTodoK (AddTodoK captured) = True"
| "is_AddTodoK _ = False"

fun is_get_todos :: "effect \<Rightarrow> bool" where
  "is_get_todos (Fetch r) = (req_method r = GET \<and> req_url r = ApiTodos)"
| "is_get_todos _ = False"


section \<open>The component \<open>AppContent\<close> of the variant with authentication\<close>

text \<open>
  \<open>window.location\<close>, with the query string as the name and value pairs that
  \<open>URLSearchParams\<close> parses it into. \<open>get\<close> gives the first value of a name, or
  \<open>null\<close>.
\<close>

record location =
  pathname :: js_string
  search :: "(js_string \<times> js_string) list"
  hash :: js_string

definition URLSearchParams_get :: "(js_string \<times> js_string) list \<Rightarrow> js_string \<Rightarrow> js_string option" where
  "URLSearchParams_get params name = map_of params name"

datatype auth_effect = LoginCall js_string | ReplaceState js_string

text \<open>
  The mount effect. \<open>if (token)\<close> is a truthiness test: \<open>null\<close> and the empty string
  both fail it. \<open>history.replaceState\<close> with the path alone leaves a URL with no query
  string and no fragment.
\<close>

definition AppContent_effect :: "location \<Rightarrow> auth_effect list \<times> location" where
  "AppContent_effect loc =
     (case URLSearchParams_get (search loc) (js ''token'') of
        None \<Rightarrow> ([], loc)
      | Some token \<Rightarrow>
          if token \<noteq> []
          then ([LoginCall token, ReplaceState (pathname loc)], loc\<lparr>search := [], hash := []\<rparr>)
          else ([], loc))"

text \<open>
  What \<open>useAuth\<close> gives, apart from \<open>login\<close>: the user and the context's own loading flag.
  The data model makes the user an object or \<open>null\<close>, but \<open>user ? ... : ...\<close> tests
  truthiness, so the user is a JavaScript value: \<open>null\<close>, \<open>undefined\<close>, \<open>false\<close>, zero,
  \<open>NaN\<close> and the empty string are falsy, every other value is truthy. Numbers are the
  integers and \<open>NaN\<close>; the content of an object belongs to the auth context.
\<close>

datatype 'u js_value =
    VNull
  | VUndefined
  | VBoolean bool
  | VNumber int
  | VNaN
  | VString js_string
  | VObject 'u

fun truthy :: "'u js_value \<Rightarrow> bool" where
  "truthy VNull = False"
| "truthy VUndefined = False"
| "truthy (VBoolean b) = b"
| "truthy (VNumber n) = (n \<noteq> 0)"
| "truthy VNaN = False"
| "truthy (VString s) = (s \<noteq> [])"
| "truthy (VObject u) = True"

record 'u auth_context =
  user :: "'u js_value"
  authLoading :: bool

datatype element = LoadingIndicator | TodoAppElement | LoginElement

definition AppContent_render :: "'u auth_context \<Rightarrow> element" where
  "AppContent_render ctx =
     (if authLoading ctx then LoadingIndicator
      else if truthy (user ctx) then TodoAppElement else LoginElement)"

section \<open>Auxiliary definitions\<close>

text \<open>
  At most one create request is in flight, and exactly then \<open>loading\<close> is set.
\<close>

definition create_gate :: "system \<Rightarrow> bool" where
  "create_gate sys \<longleftrightarrow>
     length (filter is_AddTodoK (inflight sys)) = (if loading (app sys) then 1 else 0)"

text \<open>Two todos and a successful response, for the examples.\<close>

definition buy_milk :: todo where
  "buy_milk = \<lparr>ident = IdNum 1, title = js ''Buy milk'', completed = False\<rparr>"

definition walk_dog :: todo where
  "walk_dog = \<lparr>ident = IdNum 2, title = js ''Walk dog'', completed = False\<rparr>"

definition ok :: "'a \<Rightarrow> 'a fetched" where
  "ok d = Resolved (Response 200 (Some d))"

section \<open>Blank titles\<close>

lemma trim_blank: "list_all is_white_space s \<Longrightarrow> trim s = []"
proof -
  assume "list_all is_white_space s"
  then have d: "dropWhile is_white_space s = []"
    by (simp add: list_all_iff)
  show "trim s = []"
    unfolding trim_def d by simp
qed

lemma trim_Nil_iff: "trim s = [] \<longleftrightarrow> list_all is_white_space s"
proof
  assume e: "trim s = []"
  show "list_all is_white_space s"
  proof (rule ccontr)
    assume "\<not> list_all is_white_space s"
    then have ne: "dropWhile is_white_space s \<noteq> []"
      by (simp add: list_all_iff)
    then have "\<not> is_white_space (hd (dropWhile is_white_space s))"
      by (rule hd_dropWhile)
    moreover have "hd (dropWhile is_white_space s) \<in> set (rev (dropWhile is_white_space s))"
      using ne by simp
    ultimately have "dropWhile is_white_space (rev (dropWhile is_white_space s)) \<noteq> []"
      by auto
    with e show False by (simp add: trim_def)
  qed
qed (rule trim_blank)

text \<open>Any other title is sent, with \<open>completed\<close> false, and \<open>loading\<close> is set.\<close>

lemma addTodo_other_title_posts:
  assumes "\<not> list_all is_white_space (newTodo s)"
  shows "addTodo_start s =
     (s\<lparr>loading := True\<rparr>,
      [PreventDefault,
       Fetch \<lparr>req_method = POST, req_url = ApiTodos, req_headers = json_headers,
              req_body = Some [(''title'', JString (newTodo s)), (''completed'', JBool False)]\<rparr>],
      Some (AddTodoK (todos s)))"
  using assms by (simp add: addTodo_start_def trim_Nil_iff)

lemmas handler_defs =
  fetchTodos_start_def fetchTodos_settle_def addTodo_start_def addTodo_settle_def
  toggleTodo_start_def toggleTodo_settle_def deleteTodo_start_def deleteTodo_settle_def

lemmas example_defs =
  mount_def initial_state_def render_def trim_def is_white_space_def js_def ok_def
  buy_milk_def walk_dog_def json_headers_def

text \<open>
  C1. When the input text is empty or consists only of white space, submitting the form
  creates nothing: the handler returns right after \<open>preventDefault\<close>, issues no request,
  leaves no continuation behind and leaves the whole state, the todo list included, as it was.
\<close>

theorem addTodo_blank_title_creates_nothing:
  assumes "list_all is_white_space (newTodo s)"
  shows "addTodo_start s = (s, [PreventDefault], None)"
  using assms by (simp add: addTodo_start_def trim_blank)

theorem addTodo_blank_title_creates_nothing_witness:
  "list_all is_white_space (newTodo (initial_state\<lparr>newTodo := [0x20, 0x9, 0x3000]\<rparr>)) \<and>
   addTodo_start (initial_state\<lparr>newTodo := [0x20, 0x9, 0x3000]\<rparr>) =
     (initial_state\<lparr>newTodo := [0x20, 0x9, 0x3000]\<rparr>, [PreventDefault], None)"
proof -
  have h: "list_all is_white_space (newTodo (initial_state\<lparr>newTodo := [0x20, 0x9, 0x3000]\<rparr>))"
    by (simp add: is_white_space_def)
  show ?thesis
    using h addTodo_blank_title_creates_nothing [OF h] by simp
qed

section \<open>Failed requests\<close>




section \<open>Toggling\<close>

text \<open>
  C3, as the code has it. \<open>toggleTodo(i, c)\<close> sends one PUT to the todo's resource whose body
  has the single field \<open>completed\<close>, set to \<open>\<not> c\<close>; the checkbox of a rendered item calls it
  with that item's id and flag. When the response arrives with a parsed record, the list
  state becomes the list that was rendered when the checkbox was clicked, with every entry
  whose id is \<open>i\<close> replaced by the record and every other entry as it was in that list; the
  input text and the loading flag are not touched.
\<close>

theorem toggle_replaces_in_clicked_list:
  "toggleTodo_start i c s =
     (s,
      [Fetch \<lparr>req_method = PUT, req_url = ApiTodo i, req_headers = json_headers,
              req_body = Some [(''completed'', JBool (\<not> c))]\<rparr>],
      Some (ToggleTodoK (todos s) i)) \<and>
   (step (ToggleClicked k) sys = Some sys1 \<longrightarrow>
      app sys1 = app sys \<and>
      inflight sys1 =
        inflight sys @ [ToggleTodoK (todos (app sys)) (ident (todos (app sys) ! k))] \<and>
      trace sys1 = trace sys @
        [Fetch \<lparr>req_method = PUT, req_url = ApiTodo (ident (todos (app sys) ! k)),
                req_headers = json_headers,
                req_body = Some [(''completed'', JBool (\<not> completed (todos (app sys) ! k)))]\<rparr>]) \<and>
   (step (ToggleTodoSettled L i (Resolved (Response st (Some u)))) sys2 = Some sys3 \<longrightarrow>
      todos (app sys3) = map (\<lambda>t. if ident t = i then u else t) L \<and>
      length (todos (app sys3)) = length L \<and>
      (\<forall>n<length L. todos (app sys3) ! n = (if ident (L ! n) = i then u else L ! n)) \<and>
      newTodo (app sys3) = newTodo (app sys2) \<and> loading (app sys3) = loading (app sys2))"
  by (auto simp: toggleTodo_start_def toggleTodo_settle_def split: if_splits)

theorem toggle_replaces_in_clicked_list_witness:
  "\<exists>sys2 sys3.
     run [FetchTodosSettled (ok [buy_milk, walk_dog]), ToggleClicked 1] mount = Some sys2 \<and>
     step (ToggleTodoSettled [buy_milk, walk_dog] (IdNum 2)
             (Resolved (Response 200 (Some (walk_dog\<lparr>completed := True\<rparr>))))) sys2 = Some sys3 \<and>
     todos (app sys3) = [buy_milk, walk_dog\<lparr>completed := True\<rparr>] \<and>
     trace sys2 = trace mount @
       [Fetch \<lparr>req_method = PUT, req_url = ApiTodo (IdNum 2), req_headers = json_headers,
               req_body = Some [(''completed'', JBool True)]\<rparr>]"
proof -
  obtain sys2 where r: "run [FetchTodosSettled (ok [buy_milk, walk_dog]), ToggleClicked 1] mount = Some sys2"
    and t: "trace sys2 = trace mount @
       [Fetch \<lparr>req_method = PUT, req_url = ApiTodo (IdNum 2), req_headers = json_headers,
               req_body = Some [(''completed'', JBool True)]\<rparr>]"
    and k: "ToggleTodoK [buy_milk, walk_dog] (IdNum 2) \<in> set (inflight sys2)"
    by (simp add: example_defs handler_defs)
  obtain sys3 where s: "step (ToggleTodoSettled [buy_milk, walk_dog] (IdNum 2)
             (Resolved (Response 200 (Some (walk_dog\<lparr>completed := True\<rparr>))))) sys2 = Some sys3"
    using k by (cases "toggleTodo_settle [buy_milk, walk_dog] (IdNum 2)
             (Resolved (Response 200 (Some (walk_dog\<lparr>completed := True\<rparr>)))) (app sys2)") simp
  from toggle_replaces_in_clicked_list [of "IdNum 2" False "app sys2" 1 sys2 sys2
      "[buy_milk, walk_dog]" 200 "walk_dog\<lparr>completed := True\<rparr>" sys2 sys3] s
  have "todos (app sys3) = [buy_milk, walk_dog\<lparr>completed := True\<rparr>]"
    by (simp add: buy_milk_def walk_dog_def)
  with r s t show ?thesis by blast
qed

text \<open>
  C3 as stated, with the entries other than \<open>i\<close> unchanged in the local state when the
  response arrives, fails when two toggles overlap. Both checkboxes are clicked while the
  list is \<open>[buy_milk, walk_dog]\<close>; the first response marks \<open>buy_milk\<close> completed; the
  second response, for id 2, writes back the list of its own click and with it the old
  \<open>buy_milk\<close>.
\<close>

theorem toggle_overwrites_other_entry:
  "map_option (todos \<circ> app)
     (run [FetchTodosSettled (ok [buy_milk, walk_dog]), ToggleClicked 0, ToggleClicked 1,
           ToggleTodoSettled [buy_milk, walk_dog] (IdNum 1) (ok (buy_milk\<lparr>completed := True\<rparr>))]
        mount) = Some [buy_milk\<lparr>completed := True\<rparr>, walk_dog] \<and>
   map_option (todos \<circ> app)
     (run [FetchTodosSettled (ok [buy_milk, walk_dog]), ToggleClicked 0, ToggleClicked 1,
           ToggleTodoSettled [buy_milk, walk_dog] (IdNum 1) (ok (buy_milk\<lparr>completed := True\<rparr>)),
           ToggleTodoSettled [buy_milk, walk_dog] (IdNum 2) (ok (walk_dog\<lparr>completed := True\<rparr>))]
        mount) = Some [buy_milk, walk_dog\<lparr>completed := True\<rparr>] \<and>
   ident buy_milk \<noteq> IdNum 2 \<and> buy_milk \<noteq> buy_milk\<lparr>completed := True\<rparr>"
  by (simp add: example_defs handler_defs)

section \<open>The loading flag\<close>

lemma filter_remove1_length:
  "k \<in> set xs \<Longrightarrow>
   length (filter P (remove1 k xs)) = length (filter P xs) - (if P k then 1 else 0)"
proof (induction xs)
  case Nil
  then show ?case by simp
next
  case (Cons a xs)
  show ?case
  proof (cases "k = a")
    case True
    then show ?thesis by simp
  next
    case False
    with Cons.prems have k: "k \<in> set xs" by simp
    have pos: "P k \<Longrightarrow> 0 < length (filter P xs)"
      using k by (auto simp: filter_empty_conv)
    from False Cons.IH [OF k] pos show ?thesis by auto
  qed
qed

lemma create_gate_mount: "create_gate mount"
  by (simp add: create_gate_def mount_def fetchTodos_start_def initial_state_def)

lemma create_gate_settle:
  assumes g: "create_gate sys" and k: "k \<in> set (inflight sys)"
    and l: "loading s = (if is_AddTodoK k then False else loading (app sys))"
  shows "create_gate \<lparr>app = s, inflight = remove1 k (inflight sys), trace = t\<rparr>"
proof -
  have n: "length (filter is_AddTodoK (remove1 k (inflight sys))) =
        length (filter is_AddTodoK (inflight sys)) - (if is_AddTodoK k then 1 else 0)"
    using k by (rule filter_remove1_length)
  have c: "length (filter is_AddTodoK (inflight sys)) = (if loading (app sys) then 1 else 0)"
    using g by (simp only: create_gate_def)
  show ?thesis
  proof (cases "is_AddTodoK k")
    case True
    with k have "filter is_AddTodoK (inflight sys) \<noteq> []"
      by (auto simp: filter_empty_conv)
    then have "length (filter is_AddTodoK (inflight sys)) \<noteq> 0" by simp
    with c have "length (filter is_AddTodoK (inflight sys)) = 1"
      by (simp split: if_splits)
    with n True l show ?thesis by (simp add: create_gate_def)
  next
    case False
    with n c l show ?thesis by (simp add: create_gate_def)
  qed
qed

lemma create_gate_start_other:
  assumes "create_gate sys" and "\<not> is_AddTodoK k" and "loading s = loading (app sys)"
  shows "create_gate (after_start sys (s, fx, Some k))"
  using assms by (simp add: create_gate_def)

lemma create_gate_step:
  assumes g: "create_gate sys" and st: "step e sys = Some sys'"
  shows "create_gate sys'"
proof (cases e)
  case (Change v)
  with assms show ?thesis
    by (auto simp: create_gate_def split: if_splits)
next
  case Submit
  with assms show ?thesis
    by (auto simp: create_gate_def render_def addTodo_start_def split: if_splits)
next
  case (ToggleClicked k)
  with st have "sys' = after_start sys
      (app sys, [Fetch \<lparr>req_method = PUT, req_url = ApiTodo (ident (todos (app sys) ! k)),
                   req_headers = json_headers,
                   req_body = Some [(''completed'', JBool (\<not> completed (todos (app sys) ! k)))]\<rparr>],
       Some (ToggleTodoK (todos (app sys)) (ident (todos (app sys) ! k))))"
    by (simp add: toggleTodo_start_def split: if_splits)
  with g show ?thesis
    by (simp only: create_gate_start_other is_AddTodoK.simps not_False_eq_True)
next
  case (DeleteClicked k)
  with st have "sys' = after_start sys
      (app sys, [Fetch \<lparr>req_method = DELETE, req_url = ApiTodo (ident (todos (app sys) ! k)),
                   req_headers = [], req_body = None\<rparr>],
       Some (DeleteTodoK (todos (app sys)) (ident (todos (app sys) ! k))))"
    by (simp add: deleteTodo_start_def split: if_splits)
  with g show ?thesis
    by (simp only: create_gate_start_other is_AddTodoK.simps not_False_eq_True)
next
  case (FetchTodosSettled out)
  with st obtain s fx where r: "fetchTodos_settle out (app sys) = (s, fx)"
    and k: "FetchTodosK \<in> set (inflight sys)"
    and e: "sys' = \<lparr>app = s, inflight = remove1 FetchTodosK (inflight sys), trace = trace sys @ fx\<rparr>"
    by (cases "fetchTodos_settle out (app sys)") (auto split: if_splits)
  from r have "loading s = loading (app sys)"
    by (auto simp: fetchTodos_settle_def split: sum.splits)
  with g k show ?thesis unfolding e by (intro create_gate_settle) simp_all
next
  case (AddTodoSettled L out)
  with st obtain s fx where r: "addTodo_settle L out (app sys) = (s, fx)"
    and k: "AddTodoK L \<in> set (inflight sys)"
    and e: "sys' = \<lparr>app = s, inflight = remove1 (AddTodoK L) (inflight sys), trace = trace sys @ fx\<rparr>"
    by (cases "addTodo_settle L out (app sys)") (auto split: if_splits)
  from r have "loading s = False"
    by (auto simp: addTodo_settle_def split: sum.splits)
  with g k show ?thesis unfolding e by (intro create_gate_settle) simp_all
next
  case (ToggleTodoSettled L i out)
  with st obtain s fx where r: "toggleTodo_settle L i out (app sys) = (s, fx)"
    and k: "ToggleTodoK L i \<in> set (inflight sys)"
    and e: "sys' = \<lparr>app = s, inflight = remove1 (ToggleTodoK L i) (inflight sys), trace = trace sys @ fx\<rparr>"
    by (cases "toggleTodo_settle L i out (app sys)") (auto split: if_splits)
  from r have "loading s = loading (app sys)"
    by (auto simp: toggleTodo_settle_def split: sum.splits)
  with g k show ?thesis unfolding e by (intro create_gate_settle) simp_all
next
  case (DeleteTodoSettled L i out)
  with st obtain s fx where r: "deleteTodo_settle L i out (app sys) = (s, fx)"
    and k: "DeleteTodoK L i \<in> set (inflight sys)"
    and e: "sys' = \<lparr>app = s, inflight = remove1 (DeleteTodoK L i) (inflight sys), trace = trace sys @ fx\<rparr>"
    by (cases "deleteTodo_settle L i out (app sys)") (auto split: if_splits)
  from r have "loading s = loading (app sys)"
    by (auto simp: deleteTodo_settle_def split: sum.splits)
  with g k show ?thesis unfolding e by (intro create_gate_settle) simp_all
qed

lemma create_gate_run:
  "create_gate sys \<Longrightarrow> run es sys = Some sys' \<Longrightarrow> create_gate sys'"
  by (induction es arbitrary: sys) (auto split: option.splits dest: create_gate_step)

text \<open>
  C4. In every state the mounted component can reach, while a create request is in flight
  \<open>loading\<close> is set, the text input and the submit button are disabled, so neither a change
  nor a second submit can happen, and that request is the only create in flight. When it
  settles, whatever the outcome, \<open>loading\<close> is cleared and no create is in flight.
\<close>

theorem loading_gates_create:
  assumes r: "run es mount = Some sys" and k: "AddTodoK L \<in> set (inflight sys)"
  shows "loading (app sys) \<and>
         input_disabled (render (app sys)) \<and> button_disabled (render (app sys)) \<and>
         step (Change v) sys = None \<and> step Submit sys = None \<and>
         length (filter is_AddTodoK (inflight sys)) = 1 \<and>
         (\<exists>sys'. step (AddTodoSettled L out) sys = Some sys' \<and> \<not> loading (app sys') \<and>
                 filter is_AddTodoK (inflight sys') = [])"
proof -
  have g: "create_gate sys"
    using create_gate_mount r by (rule create_gate_run)
  from k have "\<exists>c\<in>set (inflight sys). is_AddTodoK c"
    by (rule bexI [rotated]) simp
  then have "filter is_AddTodoK (inflight sys) \<noteq> []"
    by (simp add: filter_empty_conv)
  then have "length (filter is_AddTodoK (inflight sys)) \<noteq> 0" by simp
  with g have l: "loading (app sys)" and n: "length (filter is_AddTodoK (inflight sys)) = 1"
    by (simp_all add: create_gate_def split: if_splits)
  obtain s fx where a: "addTodo_settle L out (app sys) = (s, fx)"
    by (cases "addTodo_settle L out (app sys)")
  then have f: "\<not> loading s"
    by (auto simp: addTodo_settle_def split: sum.splits)
  let ?sys' = "\<lparr>app = s, inflight = remove1 (AddTodoK L) (inflight sys), trace = trace sys @ fx\<rparr>"
  have s: "step (AddTodoSettled L out) sys = Some ?sys'"
    using a k by simp
  have "length (filter is_AddTodoK (inflight ?sys')) = 0"
    using filter_remove1_length [OF k, of is_AddTodoK] n by simp
  then have "filter is_AddTodoK (inflight ?sys') = []" by simp
  with s f have "\<exists>sys'. step (AddTodoSettled L out) sys = Some sys' \<and> \<not> loading (app sys') \<and>
                 filter is_AddTodoK (inflight sys') = []"
    by (intro exI [of _ ?sys']) simp
  with l n show ?thesis by (simp add: render_def)
qed

theorem loading_gates_create_witness:
  "\<exists>sys. run [Change (js ''Buy milk''), Submit] mount = Some sys \<and>
         AddTodoK [] \<in> set (inflight sys) \<and> loading (app sys) \<and>
         input_disabled (render (app sys)) \<and> button_disabled (render (app sys)) \<and>
         step Submit sys = None \<and>
         (\<exists>sys'. step (AddTodoSettled [] Rejected) sys = Some sys' \<and> \<not> loading (app sys'))"
proof -
  obtain sys where r: "run [Change (js ''Buy milk''), Submit] mount = Some sys"
    and k: "AddTodoK [] \<in> set (inflight sys)"
    by (simp add: example_defs handler_defs)
  from loading_gates_create [OF r k, of "[]" Rejected] r k show ?thesis by blast
qed

section \<open>Mounting\<close>

lemma get_todos_step:
  assumes "step e sys = Some sys'"
  shows "filter is_get_todos (trace sys') = filter is_get_todos (trace sys)"
proof (cases e)
  case (Change v)
  with assms show ?thesis by (auto split: if_splits)
next
  case Submit
  with assms show ?thesis by (auto simp: addTodo_start_def split: if_splits)
next
  case (ToggleClicked k)
  with assms show ?thesis by (auto simp: toggleTodo_start_def split: if_splits)
next
  case (DeleteClicked k)
  with assms show ?thesis by (auto simp: deleteTodo_start_def split: if_splits)
next
  case (FetchTodosSettled out)
  with assms show ?thesis by (auto simp: fetchTodos_settle_def split: if_splits sum.splits)
next
  case (AddTodoSettled L out)
  with assms show ?thesis by (auto simp: addTodo_settle_def split: if_splits sum.splits)
next
  case (ToggleTodoSettled L i out)
  with assms show ?thesis by (auto simp: toggleTodo_settle_def split: if_splits sum.splits)
next
  case (DeleteTodoSettled L i out)
  with assms show ?thesis by (auto simp: deleteTodo_settle_def split: if_splits sum.splits)
qed

lemma get_todos_run:
  "run es sys = Some sys' \<Longrightarrow>
   filter is_get_todos (trace sys') = filter is_get_todos (trace sys)"
  by (induction es arbitrary: sys) (auto split: option.splits dest: get_todos_step)

text \<open>
  C5. Mounting issues one request, a GET of \<open>/api/todos\<close>, and nothing the component does
  later issues another: in every reachable state the trace holds exactly one. When that
  request resolves with a body that parses, the list state is set to the parsed body.
\<close>

theorem mount_fetches_todos_once:
  assumes r: "run es mount = Some sys"
  shows "trace mount =
           [Fetch \<lparr>req_method = GET, req_url = ApiTodos, req_headers = [], req_body = None\<rparr>] \<and>
         inflight mount = [FetchTodosK] \<and>
         length (filter is_get_todos (trace sys)) = 1 \<and>
         fetchTodos_settle (Resolved (Response st (Some data))) (app sys) =
           ((app sys)\<lparr>todos := data\<rparr>, []) \<and>
         step (FetchTodosSettled (Resolved (Response st (Some data)))) mount =
           Some \<lparr>app = initial_state\<lparr>todos := data\<rparr>, inflight = [], trace = trace mount\<rparr>"
proof -
  have m: "trace mount =
      [Fetch \<lparr>req_method = GET, req_url = ApiTodos, req_headers = [], req_body = None\<rparr>]"
    and i: "inflight mount = [FetchTodosK]" and a: "app mount = initial_state"
    by (simp_all add: mount_def fetchTodos_start_def)
  have "filter is_get_todos (trace sys) = filter is_get_todos (trace mount)"
    using r by (rule get_todos_run)
  then have n: "length (filter is_get_todos (trace sys)) = 1"
    by (simp add: m)
  have f: "fetchTodos_settle (Resolved (Response st (Some data))) s = (s\<lparr>todos := data\<rparr>, [])" for s
    by (simp add: fetchTodos_settle_def)
  have "step (FetchTodosSettled (Resolved (Response st (Some data)))) mount =
           Some \<lparr>app = initial_state\<lparr>todos := data\<rparr>, inflight = [], trace = trace mount\<rparr>"
    by (simp add: f i a)
  with m i n f show ?thesis by simp
qed

theorem mount_fetches_todos_once_witness:
  "\<exists>sys. run [Change (js ''Buy milk''), Submit, AddTodoSettled [] (ok buy_milk), DeleteClicked 0] mount = Some sys \<and>
     length (filter is_get_todos (trace sys)) = 1 \<and>
     step (FetchTodosSettled (Resolved (Response 200 (Some [buy_milk, walk_dog])))) mount =
       Some \<lparr>app = initial_state\<lparr>todos := [buy_milk, walk_dog]\<rparr>, inflight = [], trace = trace mount\<rparr>"
proof -
  obtain sys where r: "run [Change (js ''Buy milk''), Submit, AddTodoSettled [] (ok buy_milk), DeleteClicked 0] mount = Some sys"
    by (simp add: example_defs handler_defs)
  from mount_fetches_todos_once [OF r, of 200 "[buy_milk, walk_dog]"] r show ?thesis by blast
qed

section \<open>Creating\<close>

text \<open>
  C6, as the code has it. Submitting a title that is not blank leaves a continuation that
  holds the list rendered at that moment. When the response arrives with a parsed record,
  the list state becomes that list followed by the record, whatever the list state has
  become in the meantime.
\<close>

theorem create_appends_to_submitted_list:
  "(step Submit sys = Some sys1 \<and> trim (newTodo (app sys)) \<noteq> [] \<longrightarrow>
      inflight sys1 = inflight sys @ [AddTodoK (todos (app sys))]) \<and>
   (step (AddTodoSettled L (Resolved (Response st (Some d)))) sys2 = Some sys3 \<longrightarrow>
      todos (app sys3) = L @ [d]) \<and>
   todos (fst (addTodo_settle L (Resolved (Response st (Some d))) s)) = L @ [d]"
  by (auto simp: addTodo_start_def addTodo_settle_def split: if_splits)

theorem create_appends_to_submitted_list_witness:
  "\<exists>sys sys1 sys2 sys3.
     run [FetchTodosSettled (ok [buy_milk]), Change (js ''Walk dog'')] mount = Some sys \<and>
     step Submit sys = Some sys1 \<and> trim (newTodo (app sys)) \<noteq> [] \<and>
     inflight sys1 = inflight sys @ [AddTodoK [buy_milk]] \<and>
     run [ToggleClicked 0] sys1 = Some sys2 \<and>
     step (AddTodoSettled [buy_milk] (Resolved (Response 201 (Some walk_dog)))) sys2 = Some sys3 \<and>
     todos (app sys3) = [buy_milk, walk_dog]"
proof -
  obtain sys where r: "run [FetchTodosSettled (ok [buy_milk]), Change (js ''Walk dog'')] mount = Some sys"
    and n: "trim (newTodo (app sys)) \<noteq> []" and l: "todos (app sys) = [buy_milk]"
    by (simp add: example_defs handler_defs)
  obtain sys1 where s1: "step Submit sys = Some sys1"
    using r by (auto simp: example_defs handler_defs split: if_splits)
  obtain sys2 where s2: "run [ToggleClicked 0] sys1 = Some sys2"
    and k: "AddTodoK [buy_milk] \<in> set (inflight sys2)"
    using r s1 by (auto simp: example_defs handler_defs split: if_splits)
  obtain sys3 where s3: "step (AddTodoSettled [buy_milk] (Resolved (Response 201 (Some walk_dog)))) sys2 = Some sys3"
    using k by (cases "addTodo_settle [buy_milk] (Resolved (Response 201 (Some walk_dog))) (app sys2)") simp
  from create_appends_to_submitted_list [of sys sys1 "[buy_milk]" 201 walk_dog sys2 sys3] s1 n s3 l
  have "inflight sys1 = inflight sys @ [AddTodoK [buy_milk]]"
    and "todos (app sys3) = [buy_milk, walk_dog]"
    by simp_all
  with r s1 n s2 s3 show ?thesis by blast
qed

text \<open>
  C6 as stated, with the record appended to the list that is current when the response
  arrives, fails when the list changes while the create is in flight. The form is
  submitted before the list of the mount request has arrived; that list, \<open>[buy_milk]\<close>,
  arrives; then the create response sets the list to \<open>[walk_dog]\<close>, the empty list of the
  submission followed by the new record.
\<close>

theorem create_overwrites_fetched_list:
  "map_option (todos \<circ> app)
     (run [Change (js ''Walk dog''), Submit, FetchTodosSettled (ok [buy_milk])] mount) =
     Some [buy_milk] \<and>
   map_option (todos \<circ> app)
     (run [Change (js ''Walk dog''), Submit, FetchTodosSettled (ok [buy_milk]),
           AddTodoSettled [] (ok walk_dog)] mount) =
     Some [walk_dog] \<and>
   [walk_dog] \<noteq> [buy_milk] @ [walk_dog]"
  by (simp add: example_defs handler_defs)

section \<open>The token in the URL\<close>

text \<open>
  C7, as the code has it. When the first \<open>token\<close> parameter of the query string is a
  string that is not empty, the mount effect calls \<open>login\<close> once, with that string, and then
  replaces the URL by its path alone, which has no \<open>token\<close> parameter. When there is no
  \<open>token\<close> parameter, or its value is empty, \<open>login\<close> is not called and the URL stays.
\<close>

theorem token_login_once:
  "(URLSearchParams_get (search loc) (js ''token'') = Some t \<and> t \<noteq> [] \<longrightarrow>
      AppContent_effect loc =
        ([LoginCall t, ReplaceState (pathname loc)], loc\<lparr>search := [], hash := []\<rparr>) \<and>
      URLSearchParams_get (search (snd (AppContent_effect loc))) (js ''token'') = None) \<and>
   (URLSearchParams_get (search loc) (js ''token'') = None \<or>
    URLSearchParams_get (search loc) (js ''token'') = Some [] \<longrightarrow>
      AppContent_effect loc = ([], loc))"
  by (auto simp: AppContent_effect_def URLSearchParams_get_def)

theorem token_login_once_witness:
  "URLSearchParams_get (search \<lparr>pathname = js ''/'', search = [(js ''token'', js ''abc'')], hash = []\<rparr>)
     (js ''token'') = Some (js ''abc'') \<and> js ''abc'' \<noteq> [] \<and>
   AppContent_effect \<lparr>pathname = js ''/'', search = [(js ''token'', js ''abc'')], hash = []\<rparr> =
     ([LoginCall (js ''abc''), ReplaceState (js ''/'')], \<lparr>pathname = js ''/'', search = [], hash = []\<rparr>) \<and>
   URLSearchParams_get (search \<lparr>pathname = js ''/'', search = [(js ''page'', js ''2'')], hash = []\<rparr>)
     (js ''token'') = None \<and>
   AppContent_effect \<lparr>pathname = js ''/'', search = [(js ''page'', js ''2'')], hash = []\<rparr> =
     ([], \<lparr>pathname = js ''/'', search = [(js ''page'', js ''2'')], hash = []\<rparr>)"
proof -
  have a: "URLSearchParams_get (search \<lparr>pathname = js ''/'', search = [(js ''token'', js ''abc'')], hash = []\<rparr>)
     (js ''token'') = Some (js ''abc'') \<and> js ''abc'' \<noteq> []"
    by (simp add: URLSearchParams_get_def js_def)
  have b: "URLSearchParams_get (search \<lparr>pathname = js ''/'', search = [(js ''page'', js ''2'')], hash = []\<rparr>)
     (js ''token'') = None"
    by (simp add: URLSearchParams_get_def js_def)
  from token_login_once [of "\<lparr>pathname = js ''/'', search = [(js ''token'', js ''abc'')], hash = []\<rparr>" "js ''abc''"]
    token_login_once [of "\<lparr>pathname = js ''/'', search = [(js ''page'', js ''2'')], hash = []\<rparr>"]
    a b
  show ?thesis by simp
qed

text \<open>
  C7 as stated fails for a \<open>token\<close> parameter that is present and empty (\<open>?token=\<close>):
  the empty string is falsy, so \<open>login\<close> is not called and the parameter stays in the URL.
\<close>

theorem empty_token_is_ignored:
  "URLSearchParams_get (search \<lparr>pathname = js ''/'', search = [(js ''token'', [])], hash = []\<rparr>)
     (js ''token'') = Some [] \<and>
   AppContent_effect \<lparr>pathname = js ''/'', search = [(js ''token'', [])], hash = []\<rparr> =
     ([], \<lparr>pathname = js ''/'', search = [(js ''token'', [])], hash = []\<rparr>)"
  by (simp add: AppContent_effect_def URLSearchParams_get_def js_def)

section \<open>Deleting\<close>

text \<open>
  C8, as the code has it. The delete button of a rendered item calls \<open>deleteTodo\<close> with that
  item's id, which sends one DELETE to the todo's resource and keeps the list rendered at
  that moment. \<open>deleteTodo\<close> never looks at the response: once \<open>fetch\<close> resolves, with any
  status and any body, the list state becomes the list of the click without the entries of
  the given id, so no todo of that id is left in the local state, and nothing is logged.
  When the list of the click holds the id, it is not what the list state becomes. Only when
  \<open>fetch\<close> rejects is the list not set: the state stays as it is and the error is logged.
\<close>

theorem delete_removes_from_clicked_list:
  "deleteTodo_start i s =
     (s,
      [Fetch \<lparr>req_method = DELETE, req_url = ApiTodo i, req_headers = [], req_body = None\<rparr>],
      Some (DeleteTodoK (todos s) i)) \<and>
   (step (DeleteClicked k) sys = Some sys1 \<longrightarrow>
      app sys1 = app sys \<and>
      inflight sys1 =
        inflight sys @ [DeleteTodoK (todos (app sys)) (ident (todos (app sys) ! k))] \<and>
      trace sys1 = trace sys @
        [Fetch \<lparr>req_method = DELETE, req_url = ApiTodo (ident (todos (app sys) ! k)),
                req_headers = [], req_body = None\<rparr>]) \<and>
   (step (DeleteTodoSettled L i (Resolved (Response st b))) sys2 = Some sys3 \<longrightarrow>
      todos (app sys3) = filter (\<lambda>t. ident t \<noteq> i) L \<and>
      i \<notin> ident ` set (todos (app sys3)) \<and>
      (i \<in> ident ` set L \<longrightarrow> todos (app sys3) \<noteq> L) \<and>
      newTodo (app sys3) = newTodo (app sys2) \<and> loading (app sys3) = loading (app sys2) \<and>
      inflight sys3 = remove1 (DeleteTodoK L i) (inflight sys2) \<and>
      trace sys3 = trace sys2) \<and>
   (step (DeleteTodoSettled L i Rejected) sys2 = Some sys4 \<longrightarrow>
      app sys4 = app sys2 \<and>
      inflight sys4 = remove1 (DeleteTodoK L i) (inflight sys2) \<and>
      trace sys4 = trace sys2 @ [ConsoleError ''Error deleting todo:'' NetworkError])"
proof -
  have n: "i \<in> ident ` set L \<Longrightarrow> filter (\<lambda>t. ident t \<noteq> i) L \<noteq> L"
    by (auto simp: filter_id_conv)
  have r: "deleteTodo_settle L i (Resolved (Response st b)) s =
      (s\<lparr>todos := filter (\<lambda>t. ident t \<noteq> i) L\<rparr>, [])" for s
    by (simp add: deleteTodo_settle_def)
  have f: "deleteTodo_settle L i Rejected s =
      (s, [ConsoleError ''Error deleting todo:'' NetworkError])" for s
    by (simp add: deleteTodo_settle_def)
  have c: "step (DeleteClicked k) sys = Some sys1 \<longrightarrow>
      app sys1 = app sys \<and>
      inflight sys1 =
        inflight sys @ [DeleteTodoK (todos (app sys)) (ident (todos (app sys) ! k))] \<and>
      trace sys1 = trace sys @
        [Fetch \<lparr>req_method = DELETE, req_url = ApiTodo (ident (todos (app sys) ! k)),
                req_headers = [], req_body = None\<rparr>]"
    by (auto simp: deleteTodo_start_def split: if_splits)
  have a: "step (DeleteTodoSettled L i (Resolved (Response st b))) sys2 = Some sys3 \<longrightarrow>
      todos (app sys3) = filter (\<lambda>t. ident t \<noteq> i) L \<and>
      i \<notin> ident ` set (todos (app sys3)) \<and>
      (i \<in> ident ` set L \<longrightarrow> todos (app sys3) \<noteq> L) \<and>
      newTodo (app sys3) = newTodo (app sys2) \<and> loading (app sys3) = loading (app sys2) \<and>
      inflight sys3 = remove1 (DeleteTodoK L i) (inflight sys2) \<and>
      trace sys3 = trace sys2"
    using n by (auto simp: r split: if_splits)
  have e: "step (DeleteTodoSettled L i Rejected) sys2 = Some sys4 \<longrightarrow>
      app sys4 = app sys2 \<and>
      inflight sys4 = remove1 (DeleteTodoK L i) (inflight sys2) \<and>
      trace sys4 = trace sys2 @ [ConsoleError ''Error deleting todo:'' NetworkError]"
    by (auto simp: f split: if_splits)
  have s0: "deleteTodo_start i s =
     (s,
      [Fetch \<lparr>req_method = DELETE, req_url = ApiTodo i, req_headers = [], req_body = None\<rparr>],
      Some (DeleteTodoK (todos s) i))"
    by (simp add: deleteTodo_start_def)
  show ?thesis
    by (rule conjI [OF s0 conjI [OF c conjI [OF a e]]])
qed

theorem delete_removes_from_clicked_list_witness:
  "\<exists>sys2 sys3 sys4.
     run [FetchTodosSettled (ok [buy_milk, walk_dog]), DeleteClicked 0] mount = Some sys2 \<and>
     trace sys2 = trace mount @
       [Fetch \<lparr>req_method = DELETE, req_url = ApiTodo (IdNum 1), req_headers = [],
               req_body = None\<rparr>] \<and>
     step (DeleteTodoSettled [buy_milk, walk_dog] (IdNum 1) (Resolved (Response 404 None))) sys2 =
       Some sys3 \<and>
     todos (app sys3) = [walk_dog] \<and> trace sys3 = trace sys2 \<and>
     step (DeleteTodoSettled [buy_milk, walk_dog] (IdNum 1) Rejected) sys2 = Some sys4 \<and>
     todos (app sys4) = [buy_milk, walk_dog] \<and>
     trace sys4 = trace sys2 @ [ConsoleError ''Error deleting todo:'' NetworkError]"
proof -
  obtain sys2 where r: "run [FetchTodosSettled (ok [buy_milk, walk_dog]), DeleteClicked 0] mount = Some sys2"
    and t: "trace sys2 = trace mount @
       [Fetch \<lparr>req_method = DELETE, req_url = ApiTodo (IdNum 1), req_headers = [],
               req_body = None\<rparr>]"
    and k: "DeleteTodoK [buy_milk, walk_dog] (IdNum 1) \<in> set (inflight sys2)"
    and l: "todos (app sys2) = [buy_milk, walk_dog]"
    by (simp add: example_defs handler_defs)
  obtain sys3 where s3: "step (DeleteTodoSettled [buy_milk, walk_dog] (IdNum 1)
      (Resolved (Response 404 None))) sys2 = Some sys3"
    using k by (cases "deleteTodo_settle [buy_milk, walk_dog] (IdNum 1)
      (Resolved (Response 404 None)) (app sys2)") simp
  obtain sys4 where s4: "step (DeleteTodoSettled [buy_milk, walk_dog] (IdNum 1) Rejected) sys2 =
      Some sys4"
    using k by (cases "deleteTodo_settle [buy_milk, walk_dog] (IdNum 1) Rejected (app sys2)") simp
  note T = delete_removes_from_clicked_list [of "IdNum 1" "app sys2" 0 sys2 sys2
      "[buy_milk, walk_dog]" 404 None sys2 sys3 sys4]
  from T [THEN conjunct2, THEN conjunct2, THEN conjunct1, THEN mp, OF s3]
  have a3: "todos (app sys3) = [walk_dog]" and t3: "trace sys3 = trace sys2"
    by (simp_all add: buy_milk_def walk_dog_def)
  from T [THEN conjunct2, THEN conjunct2, THEN conjunct2, THEN mp, OF s4] l
  have a4: "todos (app sys4) = [buy_milk, walk_dog]"
    and t4: "trace sys4 = trace sys2 @ [ConsoleError ''Error deleting todo:'' NetworkError]"
    by simp_all
  from r t s3 a3 t3 s4 a4 t4 show ?thesis by blast
qed

text \<open>
  C8 as stated, with the todo removed from the local state as it is when the response
  arrives, fails when two deletes overlap. Both delete buttons are clicked while the list
  is \<open>[buy_milk, walk_dog]\<close>; the first response leaves \<open>[walk_dog]\<close>; the second response,
  for id 2, sets the list of its own click without \<open>walk_dog\<close>, which is \<open>[buy_milk]\<close> and
  not the local state without \<open>walk_dog\<close>.
\<close>

theorem delete_restores_other_entry:
  "map_option (todos \<circ> app)
     (run [FetchTodosSettled (ok [buy_milk, walk_dog]), DeleteClicked 0, DeleteClicked 1,
           DeleteTodoSettled [buy_milk, walk_dog] (IdNum 1) (Resolved (Response 204 None))]
        mount) = Some [walk_dog] \<and>
   map_option (todos \<circ> app)
     (run [FetchTodosSettled (ok [buy_milk, walk_dog]), DeleteClicked 0, DeleteClicked 1,
           DeleteTodoSettled [buy_milk, walk_dog] (IdNum 1) (Resolved (Response 204 None)),
           DeleteTodoSettled [buy_milk, walk_dog] (IdNum 2) (Resolved (Response 204 None))]
        mount) = Some [buy_milk] \<and>
   filter (\<lambda>t. ident t \<noteq> IdNum 2) [walk_dog] = [] \<and>
   [buy_milk] \<noteq> filter (\<lambda>t. ident t \<noteq> IdNum 2) [walk_dog]"
  by (simp add: example_defs handler_defs)

section \<open>The input text after a create\<close>

text \<open>
  C9. When the create request resolves and its body parses, the input text is reset to the
  empty string. When the attempt throws, because \<open>fetch\<close> rejects or because the body does
  not parse, the input text is left as it was.
\<close>

theorem create_resets_input_unless_thrown:
  "newTodo (fst (addTodo_settle L (Resolved (Response st (Some d))) s)) = [] \<and>
   newTodo (fst (addTodo_settle L (Resolved (Response st None)) s)) = newTodo s \<and>
   newTodo (fst (addTodo_settle L Rejected s)) = newTodo s"
  by (simp add: addTodo_settle_def)

theorem create_resets_input_unless_thrown_witness:
  "newTodo (fst (addTodo_settle [] (Resolved (Response 201 (Some buy_milk)))
      \<lparr>todos = [], newTodo = js ''Buy milk'', loading = True\<rparr>)) = [] \<and>
   newTodo (fst (addTodo_settle [] (Resolved (Response 201 None))
      \<lparr>todos = [], newTodo = js ''Buy milk'', loading = True\<rparr>)) = js ''Buy milk'' \<and>
   newTodo (fst (addTodo_settle [] Rejected
      \<lparr>todos = [], newTodo = js ''Buy milk'', loading = True\<rparr>)) = js ''Buy milk''"
  using create_resets_input_unless_thrown [of "[]" 201 buy_milk
      "\<lparr>todos = [], newTodo = js ''Buy milk'', loading = True\<rparr>"]
  by simp

section \<open>What \<open>AppContent\<close> shows\<close>

text \<open>
  C10, as the code has it. The element \<open>AppContent\<close> returns depends on the auth context
  alone: the loading indicator while its \<open>loading\<close> is set; otherwise \<open>TodoApp\<close> exactly
  when the user is truthy and \<open>Login\<close> exactly when the user is falsy. For a user that is an
  object or \<open>null\<close> that is \<open>TodoApp\<close> exactly when the user is not \<open>null\<close> and \<open>Login\<close>
  exactly when it is.
\<close>

theorem AppContent_view_of_auth:
  "(authLoading ctx \<longrightarrow> AppContent_render ctx = LoadingIndicator) \<and>
   (\<not> authLoading ctx \<longrightarrow>
      (AppContent_render ctx = TodoAppElement \<longleftrightarrow> truthy (user ctx)) \<and>
      (AppContent_render ctx = LoginElement \<longleftrightarrow> \<not> truthy (user ctx))) \<and>
   (\<not> authLoading ctx \<and> (user ctx = VNull \<or> (\<exists>u. user ctx = VObject u)) \<longrightarrow>
      (AppContent_render ctx = TodoAppElement \<longleftrightarrow> user ctx \<noteq> VNull) \<and>
      (AppContent_render ctx = LoginElement \<longleftrightarrow> user ctx = VNull))"
  by (auto simp: AppContent_render_def)

theorem AppContent_view_of_auth_witness:
  "AppContent_render \<lparr>user = VObject (7::nat), authLoading = True\<rparr> = LoadingIndicator \<and>
   AppContent_render \<lparr>user = VObject (7::nat), authLoading = False\<rparr> = TodoAppElement \<and>
   AppContent_render \<lparr>user = (VNull :: nat js_value), authLoading = False\<rparr> = LoginElement \<and>
   AppContent_render \<lparr>user = (VString (js ''ann'') :: nat js_value), authLoading = False\<rparr> =
     TodoAppElement"
  using AppContent_view_of_auth [of "\<lparr>user = VObject (7::nat), authLoading = True\<rparr>"]
    AppContent_view_of_auth [of "\<lparr>user = VObject (7::nat), authLoading = False\<rparr>"]
    AppContent_view_of_auth [of "\<lparr>user = (VNull :: nat js_value), authLoading = False\<rparr>"]
    AppContent_view_of_auth
      [of "\<lparr>user = (VString (js ''ann'') :: nat js_value), authLoading = False\<rparr>"]
  by (simp add: js_def)

text \<open>
  C10 as stated, with \<open>TodoApp\<close> for every user that is not \<open>null\<close>, fails for a user that
  is falsy without being \<open>null\<close>: for the number zero and for the empty string the
  conditional takes its second branch and \<open>Login\<close> is rendered.
\<close>

theorem falsy_user_sees_login:
  "AppContent_render \<lparr>user = (VNumber 0 :: unit js_value), authLoading = False\<rparr> = LoginElement \<and>
   (VNumber 0 :: unit js_value) \<noteq> VNull \<and>
   AppContent_render \<lparr>user = (VString [] :: unit js_value), authLoading = False\<rparr> = LoginElement \<and>
   (VString [] :: unit js_value) \<noteq> VNull"
  by (simp add: AppContent_render_def)

end
